theory Spec2Isabelle
  imports Main "HOL-Library.Sublist" "HOL-Library.Multiset"
begin

section \<open>The component record of the store (src/stuff/main.go, lines 366-378)\<close>

text \<open>
  The Go struct \<^verbatim>\<open>Component\<close> of the file that holds the two store backends. Its fields
  \<^verbatim>\<open>id\<close>, \<^verbatim>\<open>value\<close> and \<^verbatim>\<open>notes\<close> are suffixed: \<open>id\<close> is a HOL constant, the other two
  are keywords of Isabelle.
  Go's \<^verbatim>\<open>int\<close> is only stored and compared here, never computed with, so it is \<open>int\<close>.
  A Go string is a sequence of bytes: a \<open>string\<close>.
\<close>

record Component =
  id_field :: int
  value_field :: string
  category :: string
  description :: string
  quantity :: string
  notes_field :: string

section \<open>Scoring (lines 380-397)\<close>

text \<open>
  \<^verbatim>\<open>strings.Index(s, substr)\<close> of the Go library: the index of the first instance of
  \<^verbatim>\<open>substr\<close> in \<^verbatim>\<open>s\<close>, or -1 when there is none. The empty string is found at index 0.
\<close>

fun Index :: "string \<Rightarrow> string \<Rightarrow> int" where
  "Index [] substr = (if substr = [] then 0 else - 1)"
| "Index (c # s) substr =
     (if prefix substr (c # s) then 0
      else (let r = Index s substr in if r = - 1 then - 1 else r + 1))"

text \<open>
  \<^verbatim>\<open>StringScore\<close> returns a \<^verbatim>\<open>float32\<close>. The only values that occur are 0, 1 and 2, and
  \<^verbatim>\<open>MatchScore\<close> adds three products of them with 1, 3 and 2: integers up to 12, which
  \<^verbatim>\<open>float32\<close> holds and adds exactly. So the scores are modelled as \<open>int\<close>.
\<close>

definition StringScore :: "string \<Rightarrow> string \<Rightarrow> int" where
  "StringScore needle haystack =
     (let i = Index haystack needle in
      if i = - 1 then 0
      else if i = 0 then 2
      else 1)"

definition MatchScore :: "Component \<Rightarrow> string \<Rightarrow> int" where
  "MatchScore c term =
     1 * StringScore term (category c) +
     3 * StringScore term (value_field c) +
     2 * StringScore term (description c)"

section \<open>The in-memory store (lines 533-608)\<close>

text \<open>
  \<^verbatim>\<open>ModifyFun\<close> is \<^verbatim>\<open>func(comp *Component) bool\<close>: it may change the record it is given
  and says whether the change is to be committed. Here it returns both.
\<close>

type_synonym ModifyFun = "Component \<Rightarrow> bool \<times> Component"

text \<open>
  \<^verbatim>\<open>id2Component\<close> is a \<^verbatim>\<open>map[int]*Component\<close>: its values are pointers, and
  \<^verbatim>\<open>EditRecord\<close> compares them. So the model has addresses: \<open>heap\<close> gives the record an
  address points to, \<open>None\<close> in the map is both a missing key and \<^verbatim>\<open>nil\<close> (Go reads a
  missing key as \<^verbatim>\<open>nil\<close>), and \<open>next_addr\<close> is the first address no record has been
  given yet. The address \<^verbatim>\<open>&toEdit\<close> that a call stores is that of a variable of its own,
  which differs from the address of every record stored before: it is modelled as
  \<open>next_addr\<close>. The field \<^verbatim>\<open>lock\<close> is modelled by each locked region being one function.
\<close>

type_synonym addr = nat

record InMemoryStore =
  id2Component :: "int \<rightharpoonup> addr"
  heap :: "addr \<Rightarrow> Component"
  next_addr :: addr

definition zero_Component :: Component where
  "zero_Component = \<lparr>id_field = 0, value_field = [], category = [], description = [],
     quantity = [], notes_field = []\<rparr>"

definition NewInMemoryStore :: InMemoryStore where
  "NewInMemoryStore = \<lparr>id2Component = Map.empty, heap = (\<lambda>_. zero_Component), next_addr = 0\<rparr>"

text \<open>The first locked region of \<^verbatim>\<open>EditRecord\<close> (lines 545-552): \<open>found\<close> and \<open>toEdit\<close>.\<close>

definition InMemoryStore_EditRecord_read :: "InMemoryStore \<Rightarrow> int \<Rightarrow> addr option \<times> Component" where
  "InMemoryStore_EditRecord_read s i =
     (let found = id2Component s i in
      (found, case found of Some p \<Rightarrow> heap s p | None \<Rightarrow> zero_Component\<lparr>id_field := i\<rparr>))"

text \<open>The second locked region (lines 555-561), entered when the update returned true.\<close>

definition InMemoryStore_EditRecord_write ::
  "InMemoryStore \<Rightarrow> int \<Rightarrow> addr option \<Rightarrow> Component \<Rightarrow> InMemoryStore \<times> bool \<times> string" where
  "InMemoryStore_EditRecord_write s i found toEdit =
     (if id2Component s i \<noteq> found
      then (s, False, ''Editing conflict. Discarding this edit. Sorry.'')
      else (s\<lparr>id2Component := (id2Component s)(i \<mapsto> next_addr s),
              heap := (heap s)(next_addr s := toEdit),
              next_addr := Suc (next_addr s)\<rparr>, True, []))"

text \<open>
  What a call does after its first locked region (lines 553-563), in the store as it is by
  then: the update runs on the private copy, outside the lock.
\<close>

definition InMemoryStore_EditRecord_rest ::
  "InMemoryStore \<Rightarrow> int \<Rightarrow> ModifyFun \<Rightarrow> addr option \<times> Component \<Rightarrow> InMemoryStore \<times> bool \<times> string" where
  "InMemoryStore_EditRecord_rest s i update snap =
     (let (found, toEdit) = snap; (ok, toEdit1) = update toEdit in
      if ok then InMemoryStore_EditRecord_write s i found (toEdit1\<lparr>id_field := i\<rparr>)
      else (s, True, []))"

text \<open>A call that no other call interleaves with.\<close>

definition InMemoryStore_EditRecord ::
  "InMemoryStore \<Rightarrow> int \<Rightarrow> ModifyFun \<Rightarrow> InMemoryStore \<times> bool \<times> string" where
  "InMemoryStore_EditRecord s i update =
     InMemoryStore_EditRecord_rest s i update (InMemoryStore_EditRecord_read s i)"

definition InMemoryStore_FindById :: "InMemoryStore \<Rightarrow> int \<Rightarrow> addr option" where
  "InMemoryStore_FindById s i = id2Component s i"

text \<open>
  Calls that run at the same time interleave their locked regions. Only the second region
  changes the store, so what other calls do between the two regions of one call is a list
  of second regions, each with the id, the \<open>found\<close> and the \<open>toEdit\<close> of its call
  (\<open>Pending\<close>). \<open>others\<close> runs them in order; \<open>committed_on i\<close> says that one of them, for
  the id \<open>i\<close>, stored its record.
\<close>

record Pending =
  p_id :: int
  p_found :: "addr option"
  p_toEdit :: Component

fun others :: "InMemoryStore \<Rightarrow> Pending list \<Rightarrow> InMemoryStore" where
  "others s [] = s"
| "others s (e # es) =
     others (fst (InMemoryStore_EditRecord_write s (p_id e) (p_found e) (p_toEdit e))) es"

fun committed_on :: "int \<Rightarrow> InMemoryStore \<Rightarrow> Pending list \<Rightarrow> bool" where
  "committed_on i s [] = False"
| "committed_on i s (e # es) =
     ((p_id e = i \<and> fst (snd (InMemoryStore_EditRecord_write s (p_id e) (p_found e) (p_toEdit e))))
      \<or> committed_on i (fst (InMemoryStore_EditRecord_write s (p_id e) (p_found e) (p_toEdit e))) es)"

text \<open>
  Two invariants of the store. \<open>store_ok\<close>: every stored pointer has been given out.
  \<open>ids_ok\<close>: a stored pointer points to a record with the id of its key (line 554 sets it
  before every write). \<open>fresh_since n s i\<close>: the entry of \<open>i\<close> was stored when \<open>n\<close>
  was no longer free.
\<close>

definition store_ok :: "InMemoryStore \<Rightarrow> bool" where
  "store_ok s = (\<forall>k p. id2Component s k = Some p \<longrightarrow> p < next_addr s)"

definition ids_ok :: "InMemoryStore \<Rightarrow> bool" where
  "ids_ok s = (\<forall>k p. id2Component s k = Some p \<longrightarrow> id_field (heap s p) = k)"

definition fresh_since :: "addr \<Rightarrow> InMemoryStore \<Rightarrow> int \<Rightarrow> bool" where
  "fresh_since n s i = (\<exists>p. id2Component s i = Some p \<and> n \<le> p)"

subsection \<open>Search (lines 572-608)\<close>

record ScoredComponent =
  score :: int
  comp_ptr :: addr

type_synonym ScoreList = "ScoredComponent list"

definition Less :: "ScoreList \<Rightarrow> nat \<Rightarrow> nat \<Rightarrow> bool" where
  "Less s i j = (score (s ! i) > score (s ! j))"

text \<open>
  \<^verbatim>\<open>sort.Sort\<close> is Go's library sort: it rearranges the slice so that no element is
  \<^verbatim>\<open>Less\<close> than one before it, and it is not guaranteed to be stable. The sort is a
  parameter of the model; \<open>sort_Sort_ok\<close> is that contract.
\<close>

definition sort_Sort_ok :: "(ScoreList \<Rightarrow> ScoreList) \<Rightarrow> bool" where
  "sort_Sort_ok srt =
     (\<forall>xs. mset (srt xs) = mset xs
        \<and> (\<forall>i j. i < j \<and> j < length (srt xs) \<longrightarrow> \<not> Less (srt xs) j i))"

text \<open>A sort that meets the contract: insertion by falling score, which keeps ties in place.\<close>

definition insertion_sort :: "ScoreList \<Rightarrow> ScoreList" where
  "insertion_sort xs = sort_key (\<lambda>e. - score e) xs"

text \<open>
  \<^verbatim>\<open>range s.id2Component\<close> visits every entry of the map once, in an order that Go leaves
  open. The order is a parameter of the model: a list \<open>ks\<close> of the keys, without repeats.
\<close>

definition range_order :: "InMemoryStore \<Rightarrow> int list \<Rightarrow> bool" where
  "range_order s ks = (distinct ks \<and> set ks = dom (id2Component s))"

text \<open>The loop of lines 592-600, with \<open>scoredlist\<close> as accumulator.\<close>

fun scan :: "InMemoryStore \<Rightarrow> string \<Rightarrow> int list \<Rightarrow> ScoreList \<Rightarrow> ScoreList" where
  "scan s search_term [] scoredlist = scoredlist"
| "scan s search_term (k # ks) scoredlist =
     (case id2Component s k of
        None \<Rightarrow> scan s search_term ks scoredlist
      | Some p \<Rightarrow>
          (let scored = \<lparr>score = MatchScore (heap s p) search_term, comp_ptr = p\<rparr> in
           if score scored > 0 then scan s search_term ks (scoredlist @ [scored])
           else scan s search_term ks scoredlist))"

definition InMemoryStore_Search ::
  "(ScoreList \<Rightarrow> ScoreList) \<Rightarrow> int list \<Rightarrow> InMemoryStore \<Rightarrow> string \<Rightarrow> addr list" where
  "InMemoryStore_Search srt ks s search_term =
     map comp_ptr (srt (scan s search_term ks []))"

text \<open>What one key contributes to \<open>scoredlist\<close>: the loop body, as a list of none or one.\<close>

definition hit :: "InMemoryStore \<Rightarrow> string \<Rightarrow> int \<Rightarrow> ScoreList" where
  "hit s t k =
     (case id2Component s k of
        None \<Rightarrow> []
      | Some p \<Rightarrow> (if 0 < MatchScore (heap s p) t
                   then [\<lparr>score = MatchScore (heap s p) t, comp_ptr = p\<rparr>] else []))"

section \<open>The database backend (lines 417-531)\<close>

text \<open>
  The table \<^verbatim>\<open>component\<close> with the columns the three prepared statements name. A text
  column may be NULL (\<open>None\<close>). The statements select and update by \<^verbatim>\<open>id\<close>, and
  \<^verbatim>\<open>EditRecord\<close> inserts only for an id that has no row: the table is a map from ids to
  rows. \<^verbatim>\<open>time.Time\<close> is a number.
\<close>

record Row =
  col_created :: "nat option"
  col_updated :: "nat option"
  col_category :: "string option"
  col_value :: "string option"
  col_description :: "string option"
  col_notes :: "string option"
  col_quantity :: "string option"

type_synonym DBBackend = "int \<rightharpoonup> Row"

text \<open>
  What the database and the clock do during one call: whether the query fails with an
  error other than \<^verbatim>\<open>sql.ErrNoRows\<close>, the error of the statement executed (if any), and
  \<^verbatim>\<open>time.Now()\<close>. After \<^verbatim>\<open>log.Fatal\<close> the process is gone: \<open>Fatal\<close>.
\<close>

record DBEnv =
  query_error :: bool
  exec_error :: "string option"
  time_Now :: nat

datatype 'a run = Fatal | Returns 'a

definition nullIfEmpty :: "string \<Rightarrow> string option" where
  "nullIfEmpty s = (if s = [] then None else Some s)"

definition emptyIfNull :: "string option \<Rightarrow> string" where
  "emptyIfNull s = (case s of None \<Rightarrow> [] | Some v \<Rightarrow> v)"

definition DBBackend_FindById :: "DBEnv \<Rightarrow> DBBackend \<Rightarrow> int \<Rightarrow> Component option run" where
  "DBBackend_FindById env d i =
     (case d i of
        None \<Rightarrow> (if query_error env then Fatal else Returns None)
      | Some r \<Rightarrow>
          (if query_error env then Fatal
           else Returns (Some \<lparr>id_field = i,
                   value_field = emptyIfNull (col_value r),
                   category = emptyIfNull (col_category r),
                   description = emptyIfNull (col_description r),
                   quantity = emptyIfNull (col_quantity r),
                   notes_field = emptyIfNull (col_notes r)\<rparr>)))"

definition insertRecord :: "DBBackend \<Rightarrow> int \<Rightarrow> nat \<Rightarrow> Component \<Rightarrow> DBBackend" where
  "insertRecord d i t rec = d(i \<mapsto> \<lparr>col_created = Some t, col_updated = None,
     col_category = nullIfEmpty (category rec), col_value = nullIfEmpty (value_field rec),
     col_description = nullIfEmpty (description rec), col_notes = nullIfEmpty (notes_field rec),
     col_quantity = nullIfEmpty (quantity rec)\<rparr>)"

definition updateRecord :: "DBBackend \<Rightarrow> int \<Rightarrow> nat \<Rightarrow> Component \<Rightarrow> DBBackend" where
  "updateRecord d i t rec =
     (case d i of
        None \<Rightarrow> d
      | Some r \<Rightarrow> d(i \<mapsto> r\<lparr>col_updated := Some t,
          col_category := nullIfEmpty (category rec), col_value := nullIfEmpty (value_field rec),
          col_description := nullIfEmpty (description rec), col_notes := nullIfEmpty (notes_field rec),
          col_quantity := nullIfEmpty (quantity rec)\<rparr>))"

definition DBBackend_EditRecord ::
  "DBEnv \<Rightarrow> DBBackend \<Rightarrow> int \<Rightarrow> ModifyFun \<Rightarrow> (DBBackend \<times> bool \<times> string) run" where
  "DBBackend_EditRecord env d i update =
     (case DBBackend_FindById env d i of
        Fatal \<Rightarrow> Fatal
      | Returns found \<Rightarrow>
          (let needsInsert = (found = None);
               rec0 = (case found of None \<Rightarrow> zero_Component\<lparr>id_field := i\<rparr> | Some c \<Rightarrow> c);
               before = rec0;
               (ok, rec) = update rec0
           in if ok then
                (if id_field rec \<noteq> i then Returns (d, False, ''ID was modified'')
                 else if rec = before then Returns (d, True, ''No change'')
                 else (case exec_error env of
                         Some err \<Rightarrow> Returns (d, False, err)
                       | None \<Rightarrow>
                           Returns ((if needsInsert then insertRecord d i (time_Now env) rec
                                     else updateRecord d i (time_Now env) rec), True, [])))
              else Returns (d, True, [])))"

text \<open>\<^verbatim>\<open>Search\<close> of the database backend returns \<^verbatim>\<open>nil\<close>: "not implemented yet".\<close>

definition DBBackend_Search :: "DBBackend \<Rightarrow> string \<Rightarrow> Component list" where
  "DBBackend_Search d search_term = []"

section \<open>Equivalence sets (the interface of lines 52-80)\<close>

text \<open>
  The later revision of the component (lines 23-34), with its \<^verbatim>\<open>Equiv_set\<close>. The field
  \<^verbatim>\<open>Id\<close> is suffixed, since \<open>Id\<close> is a HOL constant.
\<close>

record Component_rev2 =
  Id_field :: int
  Equiv_set :: int
  Value :: string
  Category :: string
  Description :: string
  Quantity :: string
  Notes :: string
  Datasheet_url :: string
  Drawersize :: int
  Footprint :: string

type_synonym StuffStore = "int \<rightharpoonup> Component_rev2"

text \<open>
  Modelled from the spec: \<^verbatim>\<open>JoinSet\<close> is only declared in the interface \<^verbatim>\<open>StuffStore\<close>
  (line 65); no implementation of it is among the source files. The specification:
  "sets the \<^verbatim>\<open>equiv_set\<close> field of the record \<^verbatim>\<open>id\<close> to the given value", with no check
  that the value is the id of a record. An id without a record has no field to set, and
  a record is created only by the first edit of its id (specification, section 3).
\<close>

definition JoinSet :: "StuffStore \<Rightarrow> int \<Rightarrow> int \<Rightarrow> StuffStore" where
  "JoinSet s i equiv_set =
     (case s i of None \<Rightarrow> s | Some c \<Rightarrow> s(i \<mapsto> c\<lparr>Equiv_set := equiv_set\<rparr>))"


section \<open>Stores used as examples\<close>

text \<open>
  The two components of the specification's example and a diode, in the in-memory store;
  and a store of two components with the same value.
\<close>

definition example_store :: InMemoryStore where
  "example_store =
     \<lparr>id2Component = [1 \<mapsto> 0, 2 \<mapsto> 1, 3 \<mapsto> 2],
      heap = (\<lambda>_. zero_Component)
        (0 := \<lparr>id_field = 1, value_field = ''10k'', category = ''Resistor'',
                description = [], quantity = [], notes_field = []\<rparr>,
         1 := \<lparr>id_field = 2, value_field = ''R-10k-network'', category = ''R-Network'',
                description = [], quantity = [], notes_field = []\<rparr>,
         2 := \<lparr>id_field = 3, value_field = ''1N4148'', category = ''Diode (D)'',
                description = [], quantity = [], notes_field = []\<rparr>),
      next_addr = 3\<rparr>"

definition tie_store :: InMemoryStore where
  "tie_store =
     \<lparr>id2Component = [1 \<mapsto> 0, 2 \<mapsto> 1],
      heap = (\<lambda>_. zero_Component)
        (0 := \<lparr>id_field = 1, value_field = ''10k'', category = ''Resistor'',
                description = [], quantity = [], notes_field = []\<rparr>,
         1 := \<lparr>id_field = 2, value_field = ''10k'', category = ''Resistor'',
                description = [], quantity = [], notes_field = []\<rparr>),
      next_addr = 2\<rparr>"

text \<open>
  A second call on id 1 of \<open>example_store\<close>, between its two locked regions: it has read
  the record at address 0 and changed the value. And the update of a first call.
\<close>

definition call_B :: Pending where
  "call_B = \<lparr>p_id = 1, p_found = Some 0, p_toEdit = (heap example_store 0)\<lparr>value_field := ''22k''\<rparr>\<rparr>"

definition update_A :: ModifyFun where
  "update_A c = (True, c\<lparr>value_field := ''47k''\<rparr>)"

text \<open>An update that changes the id, and one that assigns a field its own value.\<close>

definition change_id :: ModifyFun where
  "change_id c = (True, c\<lparr>id_field := 7\<rparr>)"

definition same_again :: ModifyFun where
  "same_again c = (True, c\<lparr>value_field := value_field c\<rparr>)"

text \<open>The records of \<open>example_store\<close> as rows of the database, and a database without failures.\<close>

definition example_db :: DBBackend where
  "example_db =
     [1 \<mapsto> \<lparr>col_created = Some 10, col_updated = None, col_category = Some ''Resistor'',
             col_value = Some ''10k'', col_description = None, col_notes = None,
             col_quantity = None\<rparr>,
      2 \<mapsto> \<lparr>col_created = Some 11, col_updated = None, col_category = Some ''R-Network'',
             col_value = Some ''R-10k-network'', col_description = None, col_notes = None,
             col_quantity = None\<rparr>,
      3 \<mapsto> \<lparr>col_created = Some 12, col_updated = None, col_category = Some ''Diode (D)'',
             col_value = Some ''1N4148'', col_description = None, col_notes = None,
             col_quantity = None\<rparr>]"

definition quiet_env :: DBEnv where
  "quiet_env = \<lparr>query_error = False, exec_error = None, time_Now = 20\<rparr>"

text \<open>
  Three components, each in its default equivalence set; and the same after component 1
  has joined the set of 2.
\<close>

definition default_sets :: StuffStore where
  "default_sets =
     [1 \<mapsto> \<lparr>Id_field = 1, Equiv_set = 1, Value = ''10k'', Category = ''Resistor'',
             Description = [], Quantity = [], Notes = [], Datasheet_url = [], Drawersize = 0,
             Footprint = []\<rparr>,
      2 \<mapsto> \<lparr>Id_field = 2, Equiv_set = 2, Value = ''10k'', Category = ''Resistor'',
             Description = [], Quantity = [], Notes = [], Datasheet_url = [], Drawersize = 0,
             Footprint = []\<rparr>,
      5 \<mapsto> \<lparr>Id_field = 5, Equiv_set = 5, Value = ''10k 1%'', Category = ''Resistor'',
             Description = [], Quantity = [], Notes = [], Datasheet_url = [], Drawersize = 0,
             Footprint = []\<rparr>]"

definition example_sets :: StuffStore where
  "example_sets =
     [1 \<mapsto> \<lparr>Id_field = 1, Equiv_set = 2, Value = ''10k'', Category = ''Resistor'',
             Description = [], Quantity = [], Notes = [], Datasheet_url = [], Drawersize = 0,
             Footprint = []\<rparr>,
      2 \<mapsto> \<lparr>Id_field = 2, Equiv_set = 2, Value = ''10k'', Category = ''Resistor'',
             Description = [], Quantity = [], Notes = [], Datasheet_url = [], Drawersize = 0,
             Footprint = []\<rparr>,
      5 \<mapsto> \<lparr>Id_field = 5, Equiv_set = 5, Value = ''10k 1%'', Category = ''Resistor'',
             Description = [], Quantity = [], Notes = [], Datasheet_url = [], Drawersize = 0,
             Footprint = []\<rparr>]"

section \<open>Properties of the scoring\<close>

lemma Index_ge: "- 1 \<le> Index s t"
  by (induction s) (auto simp: Let_def)

lemma Index_zero_iff: "Index s t = 0 \<longleftrightarrow> prefix t s"
proof (cases s)
  case Nil
  then show ?thesis by simp
next
  case (Cons c s')
  have "- 1 \<le> Index s' t" by (rule Index_ge)
  then have "Index s' t + 1 \<noteq> 0 \<or> Index s' t = - 1" by arith
  with Cons show ?thesis by (auto simp: Let_def)
qed

lemma Index_absent_iff: "Index s t = - 1 \<longleftrightarrow> \<not> sublist t s"
proof (induction s)
  case Nil
  then show ?case by simp
next
  case (Cons c s)
  have "- 1 \<le> Index s t" by (rule Index_ge)
  then have "Index s t + 1 \<noteq> - 1" by arith
  with Cons show ?case by (auto simp: Let_def sublist_Cons_right)
qed

text \<open>The index returned is that of the first instance.\<close>

lemma Index_first:
  "Index s t = int i \<Longrightarrow> prefix t (drop i s) \<and> (\<forall>j < i. \<not> prefix t (drop j s))"
proof (induction s arbitrary: i)
  case Nil
  then show ?case by (auto split: if_splits)
next
  case (Cons c s)
  show ?case
  proof (cases "prefix t (c # s)")
    case True
    with Cons.prems show ?thesis by simp
  next
    case False
    with Cons.prems have r: "Index s t \<noteq> - 1" and i: "int i = Index s t + 1"
      by (auto simp: Let_def split: if_splits)
    have ge: "- 1 \<le> Index s t" by (rule Index_ge)
    define k where "k = nat (Index s t)"
    from ge r have k2: "Index s t = int k" by (simp add: k_def)
    with i have k1: "i = Suc k" by arith
    note k = k1 k2
    from Cons.IH [OF k(2)] False k(1) show ?thesis
      by (auto simp: less_Suc_eq_0_disj)
  qed
qed

lemma StringScore_cases:
  "StringScore t f = (if \<not> sublist t f then 0 else if prefix t f then 2 else 1)"
  using Index_absent_iff [of f t] Index_zero_iff [of f t]
  by (auto simp: StringScore_def Let_def)

lemma StringScore_range: "0 \<le> StringScore t f \<and> StringScore t f \<le> 2"
  by (simp add: StringScore_cases)

lemma StringScore_self: "StringScore t t = 2"
  by (simp add: StringScore_cases)

lemma StringScore_not_prefix: "\<not> prefix t f \<Longrightarrow> StringScore t f \<le> 1"
  by (simp add: StringScore_cases)

lemma StringScore_empty: "StringScore [] f = 2"
  by (simp add: StringScore_cases)

lemma MatchScore_nonneg: "0 \<le> MatchScore c t"
  using StringScore_range [of t "category c"] StringScore_range [of t "value_field c"]
    StringScore_range [of t "description c"]
  by (simp add: MatchScore_def)

text \<open>
  C4. The relevance score of a component is
  1 * match(term, category) + 3 * match(term, value) + 2 * match(term, description), where
  match is 0 exactly when the term is not a substring of the field, and is strictly higher
  for a field that has the term at position 0 (2) than for a field that has it only further
  in (1). Value has the highest weight, description the second, category the lowest.
\<close>

theorem C4_score_formula:
  "MatchScore c t =
     1 * StringScore t (category c) + 3 * StringScore t (value_field c)
       + 2 * StringScore t (description c)
   \<and> (StringScore t f = 0 \<longleftrightarrow> \<not> sublist t f)
   \<and> (prefix t f \<longrightarrow> StringScore t f = 2)
   \<and> (sublist t g \<and> \<not> prefix t g \<longrightarrow> StringScore t g = 1)
   \<and> (prefix t f \<and> sublist t g \<and> \<not> prefix t g \<longrightarrow> StringScore t g < StringScore t f)"
  by (auto simp: MatchScore_def StringScore_cases)

text \<open>
  Witness of C4, for the term "10k": a component that has it inside its value and at the
  start of its description scores 3 * 1 + 2 * 2 = 7.
\<close>

theorem C4_score_formula_witness:
  "MatchScore \<lparr>id_field = 2, value_field = ''R-10k-network'', category = ''Resistor'',
       description = ''10k'', quantity = '''', notes_field = ''''\<rparr> ''10k'' = 7
   \<and> StringScore ''10k'' ''Resistor'' = 0 \<and> \<not> sublist ''10k'' ''Resistor''
   \<and> prefix ''10k'' ''10k'' \<and> StringScore ''10k'' ''10k'' = 2
   \<and> sublist ''10k'' ''R-10k-network'' \<and> \<not> prefix ''10k'' ''R-10k-network''
   \<and> StringScore ''10k'' ''R-10k-network'' = 1
   \<and> StringScore ''10k'' ''R-10k-network'' < StringScore ''10k'' ''10k''"
proof -
  have s: "sublist ''10k'' ''R-10k-network''" "\<not> prefix ''10k'' ''R-10k-network''"
    "prefix ''10k'' ''10k''" "\<not> sublist ''10k'' ''Resistor''"
    by code_simp+
  from s C4_score_formula [of "\<lparr>id_field = 2, value_field = ''R-10k-network'',
       category = ''Resistor'', description = ''10k'', quantity = '''', notes_field = ''''\<rparr>"
       "''10k''" "''10k''" "''R-10k-network''"]
     C4_score_formula [of "\<lparr>id_field = 2, value_field = ''R-10k-network'',
       category = ''Resistor'', description = ''10k'', quantity = '''', notes_field = ''''\<rparr>"
       "''10k''" "''Resistor''" "''Resistor''"]
  show ?thesis by simp
qed

section \<open>Properties of the search\<close>

lemma scan_hits: "scan s t ks acc = acc @ concat (map (hit s t) ks)"
  by (induction ks arbitrary: acc) (auto simp: hit_def Let_def split: option.splits)

lemma hit_elem:
  "e \<in> set (hit s t k) \<Longrightarrow>
     id2Component s k = Some (comp_ptr e) \<and> score e = MatchScore (heap s (comp_ptr e)) t \<and> 0 < score e"
  by (auto simp: hit_def split: option.splits if_splits)

lemma scan_elem:
  "e \<in> set (scan s t ks []) \<Longrightarrow>
     (\<exists>k \<in> set ks. id2Component s k = Some (comp_ptr e))
       \<and> score e = MatchScore (heap s (comp_ptr e)) t \<and> 0 < score e"
  by (auto simp: scan_hits dest: hit_elem)

lemma count_hit:
  "count_list (map comp_ptr (hit s t k)) p =
     (if id2Component s k = Some p \<and> 0 < MatchScore (heap s p) t then 1 else 0)"
  by (auto simp: hit_def split: option.splits)

lemma count_concat_hits:
  "count_list (map comp_ptr (concat (map (hit s t) ks))) p =
     length (filter (\<lambda>k. id2Component s k = Some p \<and> 0 < MatchScore (heap s p) t) ks)"
  by (induction ks) (simp_all add: count_hit)

lemma mset_scan_order:
  assumes "mset ks1 = mset ks2"
  shows "mset (scan s t ks1 []) = mset (scan s t ks2 [])"
proof -
  have "mset (concat (map (hit s t) ks)) = sum_mset (image_mset (\<lambda>k. mset (hit s t k)) (mset ks))" for ks
    by (induction ks) simp_all
  with assms show ?thesis by (simp add: scan_hits)
qed

lemma sort_ok_mset: "sort_Sort_ok srt \<Longrightarrow> mset (srt xs) = mset xs"
  by (simp add: sort_Sort_ok_def)

lemma sort_ok_set: "sort_Sort_ok srt \<Longrightarrow> set (srt xs) = set xs"
  by (metis sort_ok_mset set_mset_mset)

lemma sort_ok_sorted: "sort_Sort_ok srt \<Longrightarrow> sorted_wrt (\<lambda>a b. score b \<le> score a) (srt xs)"
  unfolding sorted_wrt_iff_nth_less sort_Sort_ok_def Less_def
  by (auto simp: not_less)

lemma insertion_sort_ok: "sort_Sort_ok insertion_sort"
proof -
  have "sorted (map (\<lambda>e. - score e) (insertion_sort xs))" for xs
    unfolding insertion_sort_def by (rule sorted_sort_key)
  then have "sorted_wrt (\<lambda>a b. score b \<le> score a) (insertion_sort xs)" for xs
    by (simp add: sorted_map)
  then show ?thesis
    unfolding sort_Sort_ok_def Less_def sorted_wrt_iff_nth_less
    by (auto simp: not_less insertion_sort_def)
qed

lemma sorted_desc_unique:
  fixes f :: "'a \<Rightarrow> int"
  assumes "mset xs = mset ys"
    and "sorted_wrt (\<lambda>a b. f b \<le> f a) xs" and "sorted_wrt (\<lambda>a b. f b \<le> f a) ys"
  shows "map f xs = map f ys"
proof -
  let ?g = "\<lambda>x. - f x"
  have sx: "sorted (map ?g xs)" and sy: "sorted (map ?g ys)"
    using assms(2,3) by (simp_all add: sorted_map)
  have "mset (map ?g xs) = mset (map ?g ys)" using assms(1) by simp
  with sx sy have "map ?g xs = map ?g ys"
    by (metis properties_for_sort sorted_sort_id)
  then have "map (uminus \<circ> ?g) xs = map (uminus \<circ> ?g) ys"
    by (metis map_map)
  then show ?thesis by (simp add: comp_def)
qed

lemma count_Search:
  assumes "sort_Sort_ok srt"
  shows "count_list (InMemoryStore_Search srt ks s t) p =
     length (filter (\<lambda>k. id2Component s k = Some p \<and> 0 < MatchScore (heap s p) t) ks)"
proof -
  let ?xs = "scan s t ks []"
  have "mset (map comp_ptr (srt ?xs)) = mset (map comp_ptr ?xs)"
    using assms by (simp add: sort_ok_mset)
  then have "count_list (map comp_ptr (srt ?xs)) p = count_list (map comp_ptr ?xs) p"
    by (metis count_mset)
  then show ?thesis
    by (simp add: InMemoryStore_Search_def scan_hits count_concat_hits)
qed

lemma set_Search:
  assumes "sort_Sort_ok srt"
  shows "set (InMemoryStore_Search srt ks s t) =
     {p. \<exists>k \<in> set ks. id2Component s k = Some p \<and> 0 < MatchScore (heap s p) t}"
proof -
  have "p \<in> set (InMemoryStore_Search srt ks s t) \<longleftrightarrow>
      (\<exists>k \<in> set ks. id2Component s k = Some p \<and> 0 < MatchScore (heap s p) t)" for p
  proof -
    have "p \<in> set (InMemoryStore_Search srt ks s t) \<longleftrightarrow>
        count_list (InMemoryStore_Search srt ks s t) p \<noteq> 0"
      by (simp add: count_list_0_iff)
    also have "\<dots> \<longleftrightarrow> filter (\<lambda>k. id2Component s k = Some p \<and> 0 < MatchScore (heap s p) t) ks \<noteq> []"
      by (simp add: count_Search [OF assms])
    also have "\<dots> \<longleftrightarrow> (\<exists>k \<in> set ks. id2Component s k = Some p \<and> 0 < MatchScore (heap s p) t)"
      by (simp add: filter_empty_conv)
    finally show ?thesis .
  qed
  then show ?thesis by blast
qed

lemma sorted_Search:
  assumes "sort_Sort_ok srt"
  shows "sorted_wrt (\<lambda>p q. MatchScore (heap s q) t \<le> MatchScore (heap s p) t)
           (InMemoryStore_Search srt ks s t)"
proof -
  let ?xs = "srt (scan s t ks [])"
  have el: "score e = MatchScore (heap s (comp_ptr e)) t" if "e \<in> set ?xs" for e
    using that scan_elem [of e s t ks] by (simp add: sort_ok_set [OF assms])
  have "sorted_wrt (\<lambda>a b. score b \<le> score a) ?xs"
    by (rule sort_ok_sorted [OF assms])
  then have "sorted_wrt (\<lambda>a b. MatchScore (heap s (comp_ptr b)) t \<le> MatchScore (heap s (comp_ptr a)) t) ?xs"
    by (rule sorted_wrt_mono_rel [rotated]) (simp add: el)
  then show ?thesis
    by (simp add: InMemoryStore_Search_def sorted_wrt_map)
qed

lemma scores_Search:
  assumes "sort_Sort_ok srt"
  shows "map (\<lambda>p. MatchScore (heap s p) t) (InMemoryStore_Search srt ks s t) =
     map score (srt (scan s t ks []))"
proof -
  have "score e = MatchScore (heap s (comp_ptr e)) t" if "e \<in> set (srt (scan s t ks []))" for e
    using that scan_elem [of e s t ks] by (simp add: sort_ok_set [OF assms])
  then show ?thesis
    by (simp add: InMemoryStore_Search_def)
qed

lemma set_Search_ran:
  assumes "sort_Sort_ok srt" and "range_order s ks"
  shows "set (InMemoryStore_Search srt ks s t) =
           {p \<in> ran (id2Component s). 0 < MatchScore (heap s p) t}"
proof -
  from assms(2) have k: "set ks = dom (id2Component s)"
    by (simp add: range_order_def)
  show ?thesis
    unfolding set_Search [OF assms(1)] k ran_def by auto
qed

lemma count_Search_card:
  assumes "sort_Sort_ok srt" and "range_order s ks"
  shows "count_list (InMemoryStore_Search srt ks s t) p =
             card {k. id2Component s k = Some p \<and> 0 < MatchScore (heap s p) t}"
proof -
  from assms(2) have d: "distinct ks" and k: "set ks = dom (id2Component s)"
    by (simp_all add: range_order_def)
  have "{k. id2Component s k = Some p \<and> 0 < MatchScore (heap s p) t} \<inter> set ks =
      {k. id2Component s k = Some p \<and> 0 < MatchScore (heap s p) t}"
    unfolding k by auto
  then show ?thesis
    by (simp add: count_Search [OF assms(1)] distinct_length_filter [OF d])
qed

text \<open>
  C5. \<^verbatim>\<open>InMemoryStore.Search\<close> returns exactly the stored components whose score is
  greater than 0, one entry for every stored id of such a component, in descending order of
  score; a component with a score of 0 or less is not in the result. This holds for every
  order in which the map is iterated and every sort that meets the contract of
  \<^verbatim>\<open>sort.Sort\<close>.
\<close>

theorem C5_Search_positive_descending:
  assumes "sort_Sort_ok srt" and "range_order s ks"
  shows "set (InMemoryStore_Search srt ks s t) =
           {p \<in> ran (id2Component s). 0 < MatchScore (heap s p) t}
     \<and> (\<forall>p. count_list (InMemoryStore_Search srt ks s t) p =
             card {k. id2Component s k = Some p \<and> 0 < MatchScore (heap s p) t})
     \<and> sorted_wrt (\<lambda>p q. MatchScore (heap s q) t \<le> MatchScore (heap s p) t)
          (InMemoryStore_Search srt ks s t)
     \<and> (\<forall>p. MatchScore (heap s p) t \<le> 0 \<longrightarrow> p \<notin> set (InMemoryStore_Search srt ks s t))"
proof -
  note 1 = set_Search_ran [OF assms, of t]
  have 3: "p \<notin> set (InMemoryStore_Search srt ks s t)" if "MatchScore (heap s p) t \<le> 0" for p
    using that unfolding 1 by simp
  from 1 count_Search_card [OF assms, of t] 3 sorted_Search [OF assms(1)] show ?thesis by blast
qed

text \<open>
  Witness of C5, the example of the specification: the search for "10k" returns component 1
  (address 0, score 6), then component 2 (address 1, score 3), and not the diode.
\<close>

theorem C5_Search_positive_descending_witness:
  "sort_Sort_ok insertion_sort \<and> range_order example_store [3, 2, 1]
   \<and> InMemoryStore_Search insertion_sort [3, 2, 1] example_store ''10k'' = [0, 1]
   \<and> set (InMemoryStore_Search insertion_sort [3, 2, 1] example_store ''10k'') =
        {p \<in> ran (id2Component example_store). 0 < MatchScore (heap example_store p) ''10k''}
   \<and> sorted_wrt (\<lambda>p q. MatchScore (heap example_store q) ''10k''
                        \<le> MatchScore (heap example_store p) ''10k'')
        (InMemoryStore_Search insertion_sort [3, 2, 1] example_store ''10k'')
   \<and> MatchScore (heap example_store 2) ''10k'' \<le> 0
   \<and> 2 \<notin> set (InMemoryStore_Search insertion_sort [3, 2, 1] example_store ''10k'')"
proof -
  have r: "range_order example_store [3, 2, 1]"
    by (auto simp: range_order_def example_store_def)
  have v: "InMemoryStore_Search insertion_sort [3, 2, 1] example_store ''10k'' = [0, 1]"
    by code_simp
  have z: "MatchScore (heap example_store 2) ''10k'' \<le> 0"
    by code_simp
  from C5_Search_positive_descending [OF insertion_sort_ok r, of "''10k''"] r v z insertion_sort_ok
  show ?thesis by simp
qed

text \<open>
  C6 (as stated: two calls of \<^verbatim>\<open>Search\<close> on the same store and term return the same list,
  ties broken by a fixed rule) fails. \<^verbatim>\<open>Less\<close> compares scores only, and the list that is
  sorted is filled in the iteration order of the map. In a store of two components of equal
  score, the iteration 1, 2 gives one list and the iteration 2, 1 the other, under a sort
  that meets the contract.
\<close>

theorem C6_Search_ties_counterexample:
  "sort_Sort_ok insertion_sort \<and> range_order tie_store [1, 2] \<and> range_order tie_store [2, 1]
   \<and> InMemoryStore_Search insertion_sort [1, 2] tie_store ''10k'' = [0, 1]
   \<and> InMemoryStore_Search insertion_sort [2, 1] tie_store ''10k'' = [1, 0]
   \<and> InMemoryStore_Search insertion_sort [1, 2] tie_store ''10k''
       \<noteq> InMemoryStore_Search insertion_sort [2, 1] tie_store ''10k''"
proof -
  have r: "range_order tie_store [1, 2]" "range_order tie_store [2, 1]"
    by (auto simp: range_order_def tie_store_def)
  have v1: "InMemoryStore_Search insertion_sort [1, 2] tie_store ''10k'' = [0, 1]"
    by code_simp
  have v2: "InMemoryStore_Search insertion_sort [2, 1] tie_store ''10k'' = [1, 0]"
    by code_simp
  from r v1 v2 insertion_sort_ok show ?thesis by simp
qed

text \<open>
  C6, amended. For a fixed store and term, two calls of \<^verbatim>\<open>Search\<close> (whatever the
  iteration orders and the sorts) return the same components, each as often, and the same
  sequence of scores: the lists differ at most in the order of components of equal score.
  When the components found have pairwise different scores, the two lists are equal.
\<close>

theorem C6_Search_same_up_to_ties:
  assumes "sort_Sort_ok srt1" and "sort_Sort_ok srt2"
    and "range_order s ks1" and "range_order s ks2"
  shows "mset (InMemoryStore_Search srt1 ks1 s t) = mset (InMemoryStore_Search srt2 ks2 s t)
     \<and> map (\<lambda>p. MatchScore (heap s p) t) (InMemoryStore_Search srt1 ks1 s t) =
         map (\<lambda>p. MatchScore (heap s p) t) (InMemoryStore_Search srt2 ks2 s t)
     \<and> (inj_on (\<lambda>p. MatchScore (heap s p) t) (set (InMemoryStore_Search srt1 ks1 s t)) \<longrightarrow>
          InMemoryStore_Search srt1 ks1 s t = InMemoryStore_Search srt2 ks2 s t)"
proof -
  let ?sc = "\<lambda>p. MatchScore (heap s p) t"
  let ?r1 = "InMemoryStore_Search srt1 ks1 s t" and ?r2 = "InMemoryStore_Search srt2 ks2 s t"
  from assms(3,4) have "mset ks1 = mset ks2"
    by (simp add: range_order_def set_eq_iff_mset_eq_distinct [symmetric])
  then have m: "mset (srt1 (scan s t ks1 [])) = mset (srt2 (scan s t ks2 []))"
    using assms(1,2) by (simp add: sort_ok_mset mset_scan_order [of ks1 ks2])
  then have 1: "mset ?r1 = mset ?r2"
    by (simp add: InMemoryStore_Search_def)
  have 2: "map ?sc ?r1 = map ?sc ?r2"
    unfolding scores_Search [OF assms(1)] scores_Search [OF assms(2)]
    by (rule sorted_desc_unique [OF m sort_ok_sorted [OF assms(1)] sort_ok_sorted [OF assms(2)]])
  have 3: "?r1 = ?r2" if inj: "inj_on ?sc (set ?r1)"
  proof -
    from 1 have "set ?r2 = set ?r1" by (metis set_mset_mset)
    with inj have "inj_on ?sc (set ?r1 \<union> set ?r2)" by simp
    with 2 show ?thesis by (simp add: inj_on_map_eq_map)
  qed
  from 1 2 3 show ?thesis by blast
qed

text \<open>
  Witness of the amended C6: in the store of the example the scores for "10k" are 6 and 3,
  and both iteration orders give the same list.
\<close>

theorem C6_Search_same_up_to_ties_witness:
  "sort_Sort_ok insertion_sort \<and> range_order example_store [3, 2, 1]
   \<and> range_order example_store [1, 2, 3]
   \<and> inj_on (\<lambda>p. MatchScore (heap example_store p) ''10k'')
        (set (InMemoryStore_Search insertion_sort [3, 2, 1] example_store ''10k''))
   \<and> InMemoryStore_Search insertion_sort [3, 2, 1] example_store ''10k'' = [0, 1]
   \<and> InMemoryStore_Search insertion_sort [3, 2, 1] example_store ''10k''
       = InMemoryStore_Search insertion_sort [1, 2, 3] example_store ''10k''"
proof -
  have r: "range_order example_store [3, 2, 1]" "range_order example_store [1, 2, 3]"
    by (auto simp: range_order_def example_store_def)
  have v: "InMemoryStore_Search insertion_sort [3, 2, 1] example_store ''10k'' = [0, 1]"
    by code_simp
  have sc: "MatchScore (heap example_store 0) ''10k'' = 6"
    "MatchScore (heap example_store 1) ''10k'' = 3"
    by code_simp+
  have i: "inj_on (\<lambda>p. MatchScore (heap example_store p) ''10k'')
        (set (InMemoryStore_Search insertion_sort [3, 2, 1] example_store ''10k''))"
    unfolding v using sc by simp
  from C6_Search_same_up_to_ties [OF insertion_sort_ok insertion_sort_ok r, of "''10k''"] i
  have e: "InMemoryStore_Search insertion_sort [3, 2, 1] example_store ''10k''
       = InMemoryStore_Search insertion_sort [1, 2, 3] example_store ''10k''"
    by blast
  from r v i e insertion_sort_ok show ?thesis by blast
qed

text \<open>
  C8. For a fixed term, a component whose value is the term scores at least as high as any
  component in which the term occurs only buried, that is, at the start of none of its three
  fields. And a component in which the term occurs in none of category, value and
  description is not in the result of \<^verbatim>\<open>Search\<close>.
\<close>

theorem C8_exact_value_beats_buried:
  "(value_field x = t \<and> \<not> prefix t (category y) \<and> \<not> prefix t (value_field y)
      \<and> \<not> prefix t (description y) \<longrightarrow> MatchScore y t \<le> MatchScore x t)
   \<and> (sort_Sort_ok srt \<and> \<not> sublist t (category (heap s p))
      \<and> \<not> sublist t (value_field (heap s p)) \<and> \<not> sublist t (description (heap s p))
      \<longrightarrow> p \<notin> set (InMemoryStore_Search srt ks s t))"
proof -
  have 1: "MatchScore y t \<le> MatchScore x t"
    if "value_field x = t" "\<not> prefix t (category y)" "\<not> prefix t (value_field y)"
      "\<not> prefix t (description y)"
  proof -
    have "MatchScore y t \<le> 6"
      using that(2-4) [THEN StringScore_not_prefix] by (simp add: MatchScore_def)
    moreover have "6 \<le> MatchScore x t"
      using StringScore_range [of t "category x"] StringScore_range [of t "description x"]
        StringScore_self [of t] that(1)
      by (simp add: MatchScore_def)
    ultimately show ?thesis by simp
  qed
  have 2: "p \<notin> set (InMemoryStore_Search srt ks s t)"
    if "sort_Sort_ok srt" "\<not> sublist t (category (heap s p))"
      "\<not> sublist t (value_field (heap s p))" "\<not> sublist t (description (heap s p))"
  proof -
    from that(2-4) have "MatchScore (heap s p) t = 0"
      by (simp add: MatchScore_def StringScore_cases)
    then show ?thesis by (simp add: set_Search [OF that(1)])
  qed
  from 1 2 show ?thesis by blast
qed

text \<open>
  Witness of C8: for "10k", the component of value "10k" against the one of value
  "R-10k-network", and the diode, which the search leaves out.
\<close>

theorem C8_exact_value_beats_buried_witness:
  "value_field (heap example_store 0) = ''10k''
   \<and> \<not> prefix ''10k'' (category (heap example_store 1))
   \<and> \<not> prefix ''10k'' (value_field (heap example_store 1))
   \<and> \<not> prefix ''10k'' (description (heap example_store 1))
   \<and> sublist ''10k'' (value_field (heap example_store 1))
   \<and> MatchScore (heap example_store 1) ''10k'' \<le> MatchScore (heap example_store 0) ''10k''
   \<and> sort_Sort_ok insertion_sort
   \<and> \<not> sublist ''10k'' (category (heap example_store 2))
   \<and> \<not> sublist ''10k'' (value_field (heap example_store 2))
   \<and> \<not> sublist ''10k'' (description (heap example_store 2))
   \<and> 2 \<notin> set (InMemoryStore_Search insertion_sort [3, 2, 1] example_store ''10k'')"
proof -
  have h: "value_field (heap example_store 0) = ''10k''"
    "\<not> prefix ''10k'' (category (heap example_store 1))"
    "\<not> prefix ''10k'' (value_field (heap example_store 1))"
    "\<not> prefix ''10k'' (description (heap example_store 1))"
    "sublist ''10k'' (value_field (heap example_store 1))"
    "\<not> sublist ''10k'' (category (heap example_store 2))"
    "\<not> sublist ''10k'' (value_field (heap example_store 2))"
    "\<not> sublist ''10k'' (description (heap example_store 2))"
    by code_simp+
  from C8_exact_value_beats_buried [of "heap example_store 0" "''10k''" "heap example_store 1"
      insertion_sort example_store 2 "[3, 2, 1]"] h insertion_sort_ok
  show ?thesis by simp
qed

text \<open>
  C10. For the empty term every field is matched at position 0 (score 2), so every component
  scores 1 * 2 + 3 * 2 + 2 * 2 = 12, and \<^verbatim>\<open>Search("")\<close> returns every component of the
  store: one entry for every stored id.
\<close>

theorem C10_empty_term_matches_all:
  "StringScore [] f = 2 \<and> MatchScore c [] = 12
   \<and> (sort_Sort_ok srt \<and> range_order s ks \<longrightarrow>
        set (InMemoryStore_Search srt ks s []) = ran (id2Component s)
        \<and> (\<forall>p. count_list (InMemoryStore_Search srt ks s []) p = card {k. id2Component s k = Some p})
        \<and> length (InMemoryStore_Search srt ks s []) = card (dom (id2Component s)))"
proof -
  have m: "MatchScore c [] = 12" for c
    by (simp add: MatchScore_def StringScore_empty)
  have 3: "set (InMemoryStore_Search srt ks s []) = ran (id2Component s)
        \<and> (\<forall>p. count_list (InMemoryStore_Search srt ks s []) p = card {k. id2Component s k = Some p})
        \<and> length (InMemoryStore_Search srt ks s []) = card (dom (id2Component s))"
    if ok: "sort_Sort_ok srt" and ro: "range_order s ks"
  proof -
    from ro have d: "distinct ks" and k: "set ks = dom (id2Component s)"
      by (simp_all add: range_order_def)
    have "length (concat (map (hit s []) ks)) = length ks"
      using k [THEN equalityD1] by (induction ks) (auto simp: hit_def m)
    moreover have "length (srt xs) = length xs" for xs
      by (metis sort_ok_mset [OF ok] size_mset)
    ultimately have "length (InMemoryStore_Search srt ks s []) = card (dom (id2Component s))"
      using distinct_card [OF d] k by (simp add: InMemoryStore_Search_def scan_hits)
    moreover have "set (InMemoryStore_Search srt ks s []) = ran (id2Component s)"
      by (simp add: set_Search_ran [OF ok ro] m)
    moreover have "count_list (InMemoryStore_Search srt ks s []) p = card {k. id2Component s k = Some p}" for p
      by (simp add: count_Search_card [OF ok ro] m)
    ultimately show ?thesis by blast
  qed
  from m [of c] 3 StringScore_empty [of f] show ?thesis by blast
qed

text \<open>Witness of C10: the empty term finds the three components of the example.\<close>

theorem C10_empty_term_matches_all_witness:
  "sort_Sort_ok insertion_sort \<and> range_order example_store [3, 2, 1]
   \<and> InMemoryStore_Search insertion_sort [3, 2, 1] example_store [] = [2, 1, 0]
   \<and> set (InMemoryStore_Search insertion_sort [3, 2, 1] example_store []) =
        ran (id2Component example_store)
   \<and> length (InMemoryStore_Search insertion_sort [3, 2, 1] example_store []) =
        card (dom (id2Component example_store))
   \<and> MatchScore (heap example_store 2) [] = 12"
proof -
  have r: "range_order example_store [3, 2, 1]"
    by (auto simp: range_order_def example_store_def)
  have v: "InMemoryStore_Search insertion_sort [3, 2, 1] example_store [] = [2, 1, 0]"
    by code_simp
  from C10_empty_term_matches_all [of "[]" "heap example_store 2" insertion_sort example_store
      "[3, 2, 1]"] r insertion_sort_ok
  have "set (InMemoryStore_Search insertion_sort [3, 2, 1] example_store []) =
        ran (id2Component example_store)
   \<and> length (InMemoryStore_Search insertion_sort [3, 2, 1] example_store []) =
        card (dom (id2Component example_store))
   \<and> MatchScore (heap example_store 2) [] = 12"
    by blast
  with r v insertion_sort_ok show ?thesis by blast
qed

section \<open>Properties of the in-memory \<^verbatim>\<open>EditRecord\<close>\<close>

lemma store_ok_New: "store_ok NewInMemoryStore"
  by (simp add: store_ok_def NewInMemoryStore_def)

lemma ids_ok_New: "ids_ok NewInMemoryStore"
  by (simp add: ids_ok_def NewInMemoryStore_def)

lemma store_ok_write:
  "store_ok s \<Longrightarrow> store_ok (fst (InMemoryStore_EditRecord_write s i found c))"
  by (auto simp: store_ok_def InMemoryStore_EditRecord_write_def less_Suc_eq)

lemma ids_ok_write:
  "store_ok s \<Longrightarrow> ids_ok s \<Longrightarrow> id_field c = i \<Longrightarrow>
     ids_ok (fst (InMemoryStore_EditRecord_write s i found c))"
  by (auto simp: store_ok_def ids_ok_def InMemoryStore_EditRecord_write_def)

lemma store_ok_EditRecord:
  "store_ok s \<Longrightarrow> store_ok (fst (InMemoryStore_EditRecord s i update))"
  by (auto simp: InMemoryStore_EditRecord_def InMemoryStore_EditRecord_rest_def
      store_ok_write split: prod.splits)

lemma ids_ok_EditRecord:
  "store_ok s \<Longrightarrow> ids_ok s \<Longrightarrow> ids_ok (fst (InMemoryStore_EditRecord s i update))"
  by (auto simp: InMemoryStore_EditRecord_def InMemoryStore_EditRecord_rest_def
      ids_ok_write split: prod.splits)

lemma Mem_EditRecord_commits:
  assumes "update (snd (InMemoryStore_EditRecord_read s i)) = (True, rec)"
  shows "InMemoryStore_EditRecord s i update =
     (s\<lparr>id2Component := (id2Component s)(i \<mapsto> next_addr s),
        heap := (heap s)(next_addr s := rec\<lparr>id_field := i\<rparr>),
        next_addr := Suc (next_addr s)\<rparr>, True, [])"
  using assms
  by (simp add: InMemoryStore_EditRecord_def InMemoryStore_EditRecord_rest_def
      InMemoryStore_EditRecord_write_def InMemoryStore_EditRecord_read_def Let_def)

lemma store_ok_others: "store_ok s \<Longrightarrow> store_ok (others s evs)"
  by (induction evs arbitrary: s) (simp_all add: store_ok_write)

text \<open>
  Two calls for the same id that have read the same store: the one that writes first
  commits, the other is rejected, and the store holds the record of the first.
\<close>

lemma two_writes_one_winner:
  assumes "store_ok s0"
    and "InMemoryStore_EditRecord_write s0 i (id2Component s0 i) c1 = (s1, r1)"
    and "InMemoryStore_EditRecord_write s1 i (id2Component s0 i) c2 = (s2, r2)"
  shows "r1 = (True, []) \<and> r2 = (False, ''Editing conflict. Discarding this edit. Sorry.'')
     \<and> s2 = s1 \<and> id2Component s2 i = Some (next_addr s0) \<and> heap s2 (next_addr s0) = c1"
proof -
  from assms(2) have 1: "r1 = (True, [])" "id2Component s1 i = Some (next_addr s0)"
    "heap s1 (next_addr s0) = c1"
    by (auto simp: InMemoryStore_EditRecord_write_def)
  from assms(1) have "id2Component s0 i \<noteq> Some (next_addr s0)"
    by (auto simp: store_ok_def)
  with 1(2) assms(3) have "r2 = (False, ''Editing conflict. Discarding this edit. Sorry.'')" "s2 = s1"
    by (auto simp: InMemoryStore_EditRecord_write_def)
  with 1 show ?thesis by simp
qed

lemma write_next_addr:
  "next_addr s \<le> next_addr (fst (InMemoryStore_EditRecord_write s i found c))"
  by (simp add: InMemoryStore_EditRecord_write_def)

lemma write_committed_fresh:
  assumes "fst (snd (InMemoryStore_EditRecord_write s i found c))" and "n \<le> next_addr s"
  shows "fresh_since n (fst (InMemoryStore_EditRecord_write s i found c)) i"
  using assms by (auto simp: InMemoryStore_EditRecord_write_def fresh_since_def split: if_splits)

lemma write_keeps_fresh:
  assumes "fresh_since n s i" and "n \<le> next_addr s"
  shows "fresh_since n (fst (InMemoryStore_EditRecord_write s j found c)) i"
  using assms by (auto simp: InMemoryStore_EditRecord_write_def fresh_since_def)

lemma others_fresh:
  assumes "n \<le> next_addr s" and "fresh_since n s i \<or> committed_on i s evs"
  shows "fresh_since n (others s evs) i"
  using assms
proof (induction evs arbitrary: s)
  case Nil
  then show ?case by simp
next
  case (Cons e es)
  let ?w = "InMemoryStore_EditRecord_write s (p_id e) (p_found e) (p_toEdit e)"
  have n: "n \<le> next_addr (fst ?w)"
    using Cons.prems(1) write_next_addr [of s "p_id e" "p_found e" "p_toEdit e"] by simp
  have "fresh_since n (fst ?w) i \<or> committed_on i (fst ?w) es"
    using Cons.prems write_committed_fresh [of s "p_id e" "p_found e" "p_toEdit e" n]
      write_keeps_fresh [of n s i "p_id e" "p_found e" "p_toEdit e"]
    by auto
  with Cons.IH [OF n] show ?case by simp
qed

lemma read_found_old:
  assumes "store_ok s"
  shows "\<not> fresh_since (next_addr s) s' i \<or> id2Component s' i \<noteq> fst (InMemoryStore_EditRecord_read s i)"
  using assms
  by (fastforce simp: store_ok_def fresh_since_def InMemoryStore_EditRecord_read_def Let_def)

text \<open>
  C1. A call of \<^verbatim>\<open>InMemoryStore.EditRecord\<close> for the id \<open>i\<close> reads the store \<open>s0\<close>; then
  other calls run their second locked regions (\<open>evs\<close>), and one of them, for the same id,
  stores its record; then the update of the first call returns true. Its commit is rejected:
  it returns false with the conflict message, and it leaves the store as the other calls
  left it.
\<close>

theorem C1_conflict_rejected:
  assumes "store_ok s0"
    and "committed_on i s0 evs"
    and "fst (update (snd (InMemoryStore_EditRecord_read s0 i)))"
  shows "InMemoryStore_EditRecord_rest (others s0 evs) i update (InMemoryStore_EditRecord_read s0 i)
         = (others s0 evs, False, ''Editing conflict. Discarding this edit. Sorry.'')"
proof -
  have "fresh_since (next_addr s0) (others s0 evs) i"
    using others_fresh [of "next_addr s0" s0 i evs] assms(2) by simp
  with read_found_old [OF assms(1), of "others s0 evs" i]
  have "id2Component (others s0 evs) i \<noteq> fst (InMemoryStore_EditRecord_read s0 i)" by simp
  moreover obtain found toEdit where r: "InMemoryStore_EditRecord_read s0 i = (found, toEdit)"
    by (cases "InMemoryStore_EditRecord_read s0 i")
  moreover obtain ok c where u: "update toEdit = (ok, c)"
    by (cases "update toEdit")
  ultimately show ?thesis
    using assms(3)
    by (simp add: InMemoryStore_EditRecord_rest_def InMemoryStore_EditRecord_write_def)
qed

lemma store_ok_example: "store_ok example_store"
  by (auto simp: store_ok_def example_store_def split: if_splits)

text \<open>
  Witness of C1: two calls on id 1 read the same record (address 0). The second commits the
  value "22k"; the first, which wants "47k", is rejected, and the store keeps "22k".
\<close>

theorem C1_conflict_rejected_witness:
  "store_ok example_store
   \<and> p_found call_B = fst (InMemoryStore_EditRecord_read example_store 1)
   \<and> committed_on 1 example_store [call_B]
   \<and> fst (update_A (snd (InMemoryStore_EditRecord_read example_store 1)))
   \<and> InMemoryStore_EditRecord_rest (others example_store [call_B]) 1 update_A
        (InMemoryStore_EditRecord_read example_store 1)
      = (others example_store [call_B], False, ''Editing conflict. Discarding this edit. Sorry.'')
   \<and> id2Component (others example_store [call_B]) 1 = Some 3
   \<and> value_field (heap (others example_store [call_B]) 3) = ''22k''"
proof -
  have c: "committed_on 1 example_store [call_B]"
    by (simp add: call_B_def example_store_def InMemoryStore_EditRecord_write_def)
  have u: "fst (update_A (snd (InMemoryStore_EditRecord_read example_store 1)))"
    by (simp add: update_A_def)
  have f: "p_found call_B = fst (InMemoryStore_EditRecord_read example_store 1)"
    by (simp add: call_B_def example_store_def InMemoryStore_EditRecord_read_def)
  have v: "id2Component (others example_store [call_B]) 1 = Some 3"
    "value_field (heap (others example_store [call_B]) 3) = ''22k''"
    by (simp_all add: call_B_def example_store_def InMemoryStore_EditRecord_write_def)
  from C1_conflict_rejected [OF store_ok_example c, of update_A] u c f v store_ok_example
  show ?thesis by blast
qed

section \<open>Properties of the database backend; the two backends compared\<close>

lemma DB_FindById_id:
  "DBBackend_FindById env d i = Returns (Some c) \<Longrightarrow> id_field c = i"
  by (auto simp: DBBackend_FindById_def split: option.splits if_splits)

text \<open>
  C2 (as stated: an update that returns true after changing the id makes \<^verbatim>\<open>EditRecord\<close>
  return false and write nothing) fails for the in-memory store, which sets the id back
  (line 554: "We don't allow to mess with that one") and commits: for id 1 of the example
  and an update that sets the id to 7, it returns true with an empty message, and the entry
  of id 1 is a new record.
\<close>

theorem C2_id_change_counterexample:
  "fst (change_id (snd (InMemoryStore_EditRecord_read example_store 1)))
   \<and> id_field (snd (change_id (snd (InMemoryStore_EditRecord_read example_store 1)))) \<noteq> 1
   \<and> fst (snd (InMemoryStore_EditRecord example_store 1 change_id)) = True
   \<and> snd (snd (InMemoryStore_EditRecord example_store 1 change_id)) = []
   \<and> id2Component example_store 1 = Some 0
   \<and> id2Component (fst (InMemoryStore_EditRecord example_store 1 change_id)) 1 = Some 3"
  by (simp add: change_id_def example_store_def InMemoryStore_EditRecord_def
      InMemoryStore_EditRecord_rest_def InMemoryStore_EditRecord_write_def
      InMemoryStore_EditRecord_read_def)

text \<open>
  C2, amended. When the lookup of the database backend returns and the update returns true
  with an id that differs, \<^verbatim>\<open>DBBackend.EditRecord\<close> returns false with the message
  "ID was modified" and leaves the table as it was. \<^verbatim>\<open>InMemoryStore.EditRecord\<close>, run
  without another call in between, instead sets the id of the updated record back to the
  id of the call and commits it: it returns true, and the record stored has the id of its
  key.
\<close>

theorem C2_id_change:
  "(DBBackend_FindById env d i = Returns found
      \<and> update (case found of None \<Rightarrow> zero_Component\<lparr>id_field := i\<rparr> | Some c \<Rightarrow> c) = (True, rec)
      \<and> id_field rec \<noteq> i
      \<longrightarrow> DBBackend_EditRecord env d i update = Returns (d, False, ''ID was modified''))
   \<and> (update (snd (InMemoryStore_EditRecord_read s i)) = (True, rec)
      \<longrightarrow> InMemoryStore_EditRecord s i update =
            (s\<lparr>id2Component := (id2Component s)(i \<mapsto> next_addr s),
               heap := (heap s)(next_addr s := rec\<lparr>id_field := i\<rparr>),
               next_addr := Suc (next_addr s)\<rparr>, True, []))"
  by (auto simp: DBBackend_EditRecord_def Let_def Mem_EditRecord_commits)

text \<open>
  Witness of the amended C2: the update that sets the id to 7, on id 1 of the example, in
  both backends.
\<close>

theorem C2_id_change_witness:
  "DBBackend_FindById quiet_env example_db 1 = Returns (Some (heap example_store 0))
   \<and> change_id (heap example_store 0) = (True, (heap example_store 0)\<lparr>id_field := 7\<rparr>)
   \<and> id_field ((heap example_store 0)\<lparr>id_field := 7\<rparr>) \<noteq> 1
   \<and> DBBackend_EditRecord quiet_env example_db 1 change_id
        = Returns (example_db, False, ''ID was modified'')
   \<and> change_id (snd (InMemoryStore_EditRecord_read example_store 1))
        = (True, (heap example_store 0)\<lparr>id_field := 7\<rparr>)
   \<and> InMemoryStore_EditRecord example_store 1 change_id =
        (example_store\<lparr>id2Component := (id2Component example_store)(1 \<mapsto> 3),
           heap := (heap example_store)(3 := heap example_store 0),
           next_addr := 4\<rparr>, True, [])"
proof -
  have f: "DBBackend_FindById quiet_env example_db 1 = Returns (Some (heap example_store 0))"
    by (simp add: DBBackend_FindById_def quiet_env_def example_db_def example_store_def
        emptyIfNull_def)
  have u: "change_id (heap example_store 0) = (True, (heap example_store 0)\<lparr>id_field := 7\<rparr>)"
    by (simp add: change_id_def)
  have n: "id_field ((heap example_store 0)\<lparr>id_field := 7\<rparr>) \<noteq> 1"
    by simp
  have r: "snd (InMemoryStore_EditRecord_read example_store 1) = heap example_store 0"
    by (simp add: InMemoryStore_EditRecord_read_def example_store_def)
  have i: "((heap example_store 0)\<lparr>id_field := 7\<rparr>)\<lparr>id_field := 1\<rparr> = heap example_store 0"
    by (simp add: example_store_def)
  have x: "next_addr example_store = 3"
    by (simp add: example_store_def)
  from C2_id_change [of quiet_env example_db 1 "Some (heap example_store 0)" change_id
      "(heap example_store 0)\<lparr>id_field := 7\<rparr>" example_store] f u n r i x
  show ?thesis by simp
qed

lemma DBBackend_EditRecord_no_change:
  assumes "DBBackend_FindById env d i = Returns (Some c)" and "update c = (True, c)"
  shows "DBBackend_EditRecord env d i update = Returns (d, True, ''No change'')"
  using assms DB_FindById_id [OF assms(1)]
  by (simp add: DBBackend_EditRecord_def Let_def)

lemma InMemoryStore_EditRecord_identical:
  assumes "store_ok s" and "ids_ok s" and "id2Component s i = Some p"
    and "update (heap s p) = (True, heap s p)"
  shows "InMemoryStore_EditRecord s i update =
            (s\<lparr>id2Component := (id2Component s)(i \<mapsto> next_addr s),
               heap := (heap s)(next_addr s := heap s p),
               next_addr := Suc (next_addr s)\<rparr>, True, [])
          \<and> next_addr s \<noteq> p"
proof -
  from assms(2,3) have "id_field (heap s p) = i" by (simp add: ids_ok_def)
  then have "(heap s p)\<lparr>id_field := i\<rparr> = heap s p" by (cases "heap s p") auto
  moreover have "snd (InMemoryStore_EditRecord_read s i) = heap s p"
    using assms(3) by (simp add: InMemoryStore_EditRecord_read_def)
  moreover from assms(1,3) have "p < next_addr s" by (simp add: store_ok_def)
  ultimately show ?thesis
    using Mem_EditRecord_commits [of update s i "heap s p"] assms(4) by simp
qed

text \<open>
  C3. When the update returns true and leaves the record as it was read, \<^verbatim>\<open>EditRecord\<close>
  is to return committed = true without touching the storage. The database backend does
  so (\<open>DBBackend_EditRecord_no_change\<close>, lines 505-508). The in-memory store has no such
  test: on the store of the example, for id 1 and an update that assigns the value its own
  value, it returns true and stores a copy under a new address (0 becomes 3), so that the
  write of a call that had read address 0 before is now rejected as a conflict.
\<close>

theorem C3_InMemoryStore_stores_identical_record:
  "id2Component example_store 1 = Some 0
   \<and> same_again (heap example_store 0) = (True, heap example_store 0)
   \<and> DBBackend_FindById quiet_env example_db 1 = Returns (Some (heap example_store 0))
   \<and> DBBackend_EditRecord quiet_env example_db 1 same_again
        = Returns (example_db, True, ''No change'')
   \<and> fst (snd (InMemoryStore_EditRecord example_store 1 same_again)) = True
   \<and> id2Component (fst (InMemoryStore_EditRecord example_store 1 same_again)) 1 = Some 3
   \<and> next_addr example_store = 3
   \<and> next_addr (fst (InMemoryStore_EditRecord example_store 1 same_again)) = 4
   \<and> fst (InMemoryStore_EditRecord example_store 1 same_again) \<noteq> example_store
   \<and> p_found call_B = id2Component example_store 1
   \<and> snd (InMemoryStore_EditRecord_write (fst (InMemoryStore_EditRecord example_store 1 same_again))
          (p_id call_B) (p_found call_B) (p_toEdit call_B))
        = (False, ''Editing conflict. Discarding this edit. Sorry.'')"
proof -
  have a: "id2Component example_store 1 = Some 0"
    "same_again (heap example_store 0) = (True, heap example_store 0)"
    "fst (snd (InMemoryStore_EditRecord example_store 1 same_again)) = True"
    "id2Component (fst (InMemoryStore_EditRecord example_store 1 same_again)) 1 = Some 3"
    "next_addr (fst (InMemoryStore_EditRecord example_store 1 same_again)) = 4"
    by (simp_all add: same_again_def example_store_def InMemoryStore_EditRecord_def
      InMemoryStore_EditRecord_rest_def InMemoryStore_EditRecord_write_def
      InMemoryStore_EditRecord_read_def)
  have n: "next_addr example_store = 3" by (simp add: example_store_def)
  with a(5) have ne: "fst (InMemoryStore_EditRecord example_store 1 same_again) \<noteq> example_store"
    by auto
  have f: "DBBackend_FindById quiet_env example_db 1 = Returns (Some (heap example_store 0))"
    by (simp add: DBBackend_FindById_def quiet_env_def example_db_def example_store_def
        emptyIfNull_def)
  note d = DBBackend_EditRecord_no_change [of quiet_env example_db 1 "heap example_store 0"
      same_again, OF f a(2)]
  have b: "p_found call_B = id2Component example_store 1"
    by (simp add: call_B_def example_store_def)
  have c: "snd (InMemoryStore_EditRecord_write (fst (InMemoryStore_EditRecord example_store 1 same_again))
          (p_id call_B) (p_found call_B) (p_toEdit call_B))
        = (False, ''Editing conflict. Discarding this edit. Sorry.'')"
    using a(4) by (simp add: InMemoryStore_EditRecord_write_def call_B_def)
  from a n ne f d b c show ?thesis by blast
qed

text \<open>
  C7. The two backends are to return the same components in the same order for the same
  records and term. The code does not: with the three records of the example in both
  backends, the in-memory search for "10k" returns components 1 and 2, and
  \<^verbatim>\<open>DBBackend.Search\<close> returns nothing (line 530: "not implemented yet").
\<close>

theorem C7_DBBackend_Search_not_implemented:
  "DBBackend_FindById quiet_env example_db 1 = Returns (Some (heap example_store 0))
   \<and> DBBackend_FindById quiet_env example_db 2 = Returns (Some (heap example_store 1))
   \<and> DBBackend_FindById quiet_env example_db 3 = Returns (Some (heap example_store 2))
   \<and> map (heap example_store) (InMemoryStore_Search insertion_sort [3, 2, 1] example_store ''10k'')
       = [heap example_store 0, heap example_store 1]
   \<and> DBBackend_Search example_db ''10k'' = []"
proof -
  have f: "DBBackend_FindById quiet_env example_db 1 = Returns (Some (heap example_store 0))"
    "DBBackend_FindById quiet_env example_db 2 = Returns (Some (heap example_store 1))"
    "DBBackend_FindById quiet_env example_db 3 = Returns (Some (heap example_store 2))"
    by (simp_all add: DBBackend_FindById_def quiet_env_def example_db_def example_store_def
        emptyIfNull_def)
  have v: "InMemoryStore_Search insertion_sort [3, 2, 1] example_store ''10k'' = [0, 1]"
    by code_simp
  from f v show ?thesis by (simp add: DBBackend_Search_def)
qed

section \<open>Properties of the equivalence sets\<close>

lemma example_sets_reached: "JoinSet default_sets 1 2 = example_sets"
  by (rule ext) (simp add: JoinSet_def default_sets_def example_sets_def)




end
